theory Spec2Isabelle
  imports Main "HOL-Library.AList" "HOL-Library.Multiset"
begin

section \<open>Go strings and integers\<close>

text \<open>
  A Go string is a sequence of bytes; it is modelled as a \<open>string\<close> (a list of 8-bit
  characters). Text outside ASCII is written as its UTF-8 bytes.
\<close>

text \<open>\<open>strings.HasPrefix(s, prefix)\<close>.\<close>

fun strings_HasPrefix :: "string \<Rightarrow> string \<Rightarrow> bool" where
  "strings_HasPrefix s [] = True"
| "strings_HasPrefix [] (p # ps) = False"
| "strings_HasPrefix (c # cs) (p # ps) = (c = p \<and> strings_HasPrefix cs ps)"

text \<open>\<open>strings.Contains(s, substr)\<close>: \<open>substr\<close> starts at some position of \<open>s\<close>.\<close>

fun strings_Contains :: "string \<Rightarrow> string \<Rightarrow> bool" where
  "strings_Contains [] substr = (substr = [])"
| "strings_Contains (c # cs) substr =
     (strings_HasPrefix (c # cs) substr \<or> strings_Contains cs substr)"

text \<open>
  \<open>strings.Split(s, sep)\<close> for a non-empty separator, the only way the program calls it
  (\<open>"/"\<close>, \<open>"PAGEN_2="\<close>, \<open>"&"\<close>): the leftmost occurrence of \<open>sep\<close> ends the current
  field and the scan goes on behind it. The result always has at least one field.
  \<open>split_from sep field rest\<close> carries the field read so far.
\<close>

fun split_from :: "string \<Rightarrow> string \<Rightarrow> string \<Rightarrow> string list" where
  "split_from sep field [] = [field]"
| "split_from sep field (c # cs) =
     (if sep \<noteq> [] \<and> strings_HasPrefix (c # cs) sep
      then field # split_from sep [] (drop (length sep) (c # cs))
      else split_from sep (field @ [c]) cs)"

definition strings_Split :: "string \<Rightarrow> string \<Rightarrow> string list" where
  "strings_Split s sep = split_from sep [] s"

text \<open>
  \<open>strconv.Atoi\<close>: an optional sign, then one or more decimal digits, and the value has
  to fit the 64-bit \<open>int\<close>. \<open>None\<close> stands for a non-nil error.
\<close>

definition is_digit :: "char \<Rightarrow> bool" where
  "is_digit ch = (48 \<le> (of_char ch :: nat) \<and> (of_char ch :: nat) \<le> 57)"

fun digits_value :: "int \<Rightarrow> string \<Rightarrow> int option" where
  "digits_value n [] = Some n"
| "digits_value n (ch # s) =
     (if is_digit ch then digits_value (n * 10 + (int (of_char ch) - 48)) s else None)"

definition strconv_Atoi :: "string \<Rightarrow> int option" where
  "strconv_Atoi s0 =
     (case s0 of
        [] \<Rightarrow> None
      | c # rest \<Rightarrow>
          let s = (if c = CHR ''-'' \<or> c = CHR ''+'' then rest else s0) in
          if s = [] then None
          else (case digits_value 0 s of
                  None \<Rightarrow> None
                | Some n \<Rightarrow>
                    let v = (if c = CHR ''-'' then - n else n) in
                    if - (2 ^ 63) \<le> v \<and> v < 2 ^ 63 then Some v else None))"

text \<open>\<open>fmt.Sprintf("%d", n)\<close>: the decimal digits of \<open>n\<close>, with a minus sign below zero.\<close>

fun decimal :: "nat \<Rightarrow> string" where
  "decimal n =
     (if n < 10 then [char_of (48 + n)]
      else decimal (n div 10) @ [char_of (48 + n mod 10)])"

declare decimal.simps [simp del]

definition Sprintf_d :: "int \<Rightarrow> string" where
  "Sprintf_d n = (if n < 0 then CHR ''-'' # decimal (nat (- n)) else decimal (nat n))"

text \<open>
  Go's \<open>int\<close> and \<open>time.Duration\<close> are 64-bit and wrap around; \<open>int64 x\<close> is the value
  the machine keeps of the mathematical result \<open>x\<close>.
  \<open>ms_Duration x\<close> is \<open>time.Duration(x) * time.Millisecond\<close>, in nanoseconds.
\<close>

definition int64 :: "int \<Rightarrow> int" where
  "int64 x = (x + 2 ^ 63) mod 2 ^ 64 - 2 ^ 63"

definition Millisecond :: int where
  "Millisecond = 1000000"

definition ms_Duration :: "int \<Rightarrow> int" where
  "ms_Duration x = int64 (int64 x * Millisecond)"

section \<open>The network and the trace of effects\<close>

text \<open>
  What the program does to the outside world is kept in a trace, oldest event first:
  every \<open>client.Get(url)\<close>, every \<open>time.Sleep(d)\<close> (\<open>d\<close> in nanoseconds) and the log
  line that opens the processing of a category page (page number and page URL).
\<close>

datatype event = Get string | Sleep int | LogPage int string

datatype neterr = NetErr string

text \<open>
  Of an \<open>http.Response\<close> the program reads the status code and the body; reading the
  body to its end (\<open>io.ReadAll\<close>) may itself fail.
\<close>

record response =
  StatusCode :: int
  Body :: "neterr + string"

datatype error =
    RetriesExhausted int "neterr option"
  | BadStatus int
  | ReadError neterr
  | ParseError string

text \<open>
  The libraries the program is linked with are parameters of the model:
  \<^item> \<open>client_Get\<close> is \<open>client.Get\<close>; its answer may depend on everything that happened
    before (the trace), so no assumption is made on the network;
  \<^item> \<open>DetermineEncoding\<close> is \<open>charset.DetermineEncoding(b, "")\<close> and \<open>Decode e\<close> the
    decoder \<open>e.NewDecoder()\<close> of package \<open>golang.org/x/text\<close>, bytes to UTF-8;
  \<^item> \<open>ParseHTML\<close> is the HTML parser behind \<open>goquery.NewDocumentFromReader\<close>;
  \<^item> \<open>TrimSpace\<close> and \<open>ToLower\<close> are \<open>strings.TrimSpace\<close> and \<open>strings.ToLower\<close>, which
    follow the Unicode tables.
\<close>

datatype encoding = UTF8 | Windows1252 | Windows1251 | OtherEncoding string

text \<open>
  A parsed page as \<open>goquery\<close> shows it: a node has its text content, its attributes, its
  rendering as HTML (\<open>None\<close> when rendering fails) and, for every selector, the list of
  the nodes below it that the selector matches, in document order. The document is its
  root node; a selection is a list of nodes.
\<close>

datatype node =
  Node (node_text: string) (node_attrs: "(string \<times> string) list")
       (node_html: "string option") (node_find: "string \<Rightarrow> node list")

record env =
  client_Get :: "event list \<Rightarrow> string \<Rightarrow> neterr + response"
  DetermineEncoding :: "string \<Rightarrow> encoding"
  Decode :: "encoding \<Rightarrow> string \<Rightarrow> string"
  ParseHTML :: "string \<Rightarrow> string + node"
  TrimSpace :: "string \<Rightarrow> string"
  ToLower :: "string \<Rightarrow> string"

text \<open>\<open>Selection.Text\<close>, \<open>Selection.Attr\<close> (of the first node) and \<open>Selection.Find\<close>.\<close>

definition sel_Text :: "node list \<Rightarrow> string" where
  "sel_Text sel = concat (map node_text sel)"

definition Attr :: "node \<Rightarrow> string \<Rightarrow> string option" where
  "Attr s name = map_of (node_attrs s) name"

definition sel_Attr :: "node list \<Rightarrow> string \<Rightarrow> string option" where
  "sel_Attr sel name = (case sel of [] \<Rightarrow> None | s # _ \<Rightarrow> Attr s name)"

definition sel_Find :: "node list \<Rightarrow> string \<Rightarrow> node list" where
  "sel_Find sel q = concat (map (\<lambda>s. node_find s q) sel)"

text \<open>\<open>v, _ := s.Attr(name)\<close>: the empty string when the attribute is absent.\<close>

definition Attr_val :: "node \<Rightarrow> string \<Rightarrow> string" where
  "Attr_val s name = (case Attr s name of None \<Rightarrow> [] | Some v \<Rightarrow> v)"

section \<open>Data model\<close>

record product =
  ID :: string
  Name :: string
  URL :: string
  Description :: string
  Price :: string
  ImageURL :: string
  Category :: string
  Features :: "string list"

record category =
  CatName :: string
  CatURL :: string

definition baseURL :: string where
  "baseURL = ''https://www.stanki.ru''"

text \<open>\<open>Product{}\<close>, the zero value.\<close>

definition zero_product :: product where
  "zero_product = \<lparr>ID = [], Name = [], URL = [], Description = [], Price = [],
     ImageURL = [], Category = [], Features = []\<rparr>"

section \<open>doRequestWithRetry\<close>

text \<open>
  The loop \<open>for i := 0; i < maxRetries; i++\<close>, with \<open>err\<close> the error of the last attempt
  (\<open>None\<close> is \<open>nil\<close>). A successful \<open>Get\<close> returns at once, whatever the status code of
  the response; a failed one is followed by \<open>time.Sleep\<close> of \<open>delayMs*(i+1)\<close> ms.
\<close>

function retry_loop ::
  "env \<Rightarrow> string \<Rightarrow> int \<Rightarrow> int \<Rightarrow> int \<Rightarrow> neterr option \<Rightarrow> event list
     \<Rightarrow> (error + response) \<times> event list" where
  "retry_loop env url maxRetries delayMs i err tr =
     (if i < maxRetries then
        (case client_Get env tr url of
           Inr resp \<Rightarrow> (Inr resp, tr @ [Get url])
         | Inl e \<Rightarrow>
             retry_loop env url maxRetries delayMs (i + 1) (Some e)
               (tr @ [Get url, Sleep (ms_Duration (int64 (delayMs * (i + 1))))]))
      else (Inl (RetriesExhausted maxRetries err), tr))"
  by pat_completeness auto
termination
  by (relation "measure (\<lambda>(env, url, maxRetries, delayMs, i, err, tr). nat (maxRetries - i))")
     auto

declare retry_loop.simps [simp del]

definition doRequestWithRetry ::
  "env \<Rightarrow> string \<Rightarrow> int \<Rightarrow> int \<Rightarrow> event list \<Rightarrow> (error + response) \<times> event list" where
  "doRequestWithRetry env url maxRetries delayMs tr =
     retry_loop env url maxRetries delayMs 0 None tr"

section \<open>getUTF8Reader\<close>

text \<open>
  The reader that \<open>transform.NewReader\<close> builds decodes lazily; it is modelled as the pair
  of the chosen encoding and the raw bytes. The two string literals of the test, the
  byte escape of EF BF BD and the rune escape of U+FFFD, are the same three bytes, and
  \<open>contentStr\<close> is \<open>string(b)\<close>, the raw bytes themselves.
\<close>

definition replacement_bytes :: string where
  "replacement_bytes = [CHR 0xEF, CHR 0xBF, CHR 0xBD]"

definition replacement_rune :: string where
  "replacement_rune = [CHR 0xEF, CHR 0xBF, CHR 0xBD]"

definition getUTF8Reader :: "env \<Rightarrow> neterr + string \<Rightarrow> error + encoding \<times> string" where
  "getUTF8Reader env r =
     (case r of
        Inl err \<Rightarrow> Inl (ReadError err)
      | Inr b \<Rightarrow>
          let e = DetermineEncoding env b;
              contentStr = b;
              e = (if strings_Contains contentStr replacement_bytes
                      \<or> strings_Contains contentStr replacement_rune
                   then Windows1251 else e)
          in Inr (e, b))"

text \<open>\<open>goquery.NewDocumentFromReader\<close> drains the reader, which decodes, and parses.\<close>

definition NewDocumentFromReader :: "env \<Rightarrow> encoding \<times> string \<Rightarrow> error + node" where
  "NewDocumentFromReader env rd =
     (case ParseHTML env (Decode env (fst rd) (snd rd)) of
        Inl msg \<Rightarrow> Inl (ParseError msg)
      | Inr doc \<Rightarrow> Inr doc)"

section \<open>extractProductsFromPage\<close>

text \<open>
  One product card, an element matched by \<open>[data-product-id]\<close>. The callback leaves the
  card out when the id attribute or the link of the name element is absent.
\<close>

definition card_product :: "env \<Rightarrow> category \<Rightarrow> node \<Rightarrow> product option" where
  "card_product env category s =
     (case Attr s ''data-product-id'' of
        None \<Rightarrow> None
      | Some productID \<Rightarrow>
          let nameElement = node_find s ''.productCard__name'';
              name = TrimSpace env (sel_Text nameElement)
          in (case sel_Attr nameElement ''href'' of
                None \<Rightarrow> None
              | Some url \<Rightarrow>
                  let price = TrimSpace env (sel_Text (node_find s ''.productCard__price''));
                      imgURL = (case node_find s ''.productCard__preview img'' of
                                  [] \<Rightarrow> []
                                | img # _ \<Rightarrow> (case Attr img ''src'' of
                                              Some src \<Rightarrow> src | None \<Rightarrow> []));
                      features = filter (\<lambda>feature. feature \<noteq> [])
                                   (map (\<lambda>p. TrimSpace env (node_text p))
                                        (node_find s ''.productCard__params p''))
                  in Some \<lparr>ID = productID, Name = name, URL = baseURL @ url,
                           Description = [], Price = price, ImageURL = baseURL @ imgURL,
                           Category = CatName category, Features = features\<rparr>))"

definition paginationSelectors :: "string list" where
  "paginationSelectors =
     [''.pagination'', ''.paginations'', ''.nav-links'', ''.pager'',
      ''.pages'', ''.pagenation'', ''.modern-page-navigation'']"

text \<open>
  The five checks for a next page. In the source each callback sets \<open>hasNextPage\<close> for
  the element at hand and \<open>Each\<close> goes on to the next element, so a check holds as soon
  as one element passes it.
\<close>

text \<open>1. Buttons carrying \<open>data-pagination-button\<close> or \<open>data-pagination-more\<close>.\<close>

definition heuristic1 :: "node \<Rightarrow> bool" where
  "heuristic1 doc =
     list_ex (\<lambda>s.
        list_ex (\<lambda>attr. case Attr s attr of
                          Some href \<Rightarrow> strings_Contains href ''PAGEN_2=''
                        | None \<Rightarrow> False)
                [''data-pagination-button'', ''data-pagination-more'']
        \<or> (strings_Contains (Attr_val s ''class'') ''button_next''
             \<and> Attr_val s ''disabled'' = []))
       (node_find doc ''[data-pagination-button], [data-pagination-more]'')"

text \<open>
  2. Elements inside a pagination block. The two Cyrillic words of the source are given
  as their UTF-8 bytes.
\<close>

definition word_sled :: string where
  "word_sled = [CHR 0xD1, CHR 0x81, CHR 0xD0, CHR 0xBB, CHR 0xD0, CHR 0xB5, CHR 0xD0, CHR 0xB4]"

definition words_pokazat_eshche :: string where
  "words_pokazat_eshche =
     [CHR 0xD0, CHR 0xBF, CHR 0xD0, CHR 0xBE, CHR 0xD0, CHR 0xBA, CHR 0xD0, CHR 0xB0,
      CHR 0xD0, CHR 0xB7, CHR 0xD0, CHR 0xB0, CHR 0xD1, CHR 0x82, CHR 0xD1, CHR 0x8C,
      CHR 0x20, CHR 0xD0, CHR 0xB5, CHR 0xD1, CHR 0x89, CHR 0xD0, CHR 0xB5]"

definition next_control :: "env \<Rightarrow> node \<Rightarrow> bool" where
  "next_control env s =
     (let text = ToLower env (TrimSpace env (node_text s));
          class = Attr_val s ''class'';
          href = Attr s ''href'';
          disabled = Attr_val s ''disabled''
      in if disabled \<noteq> [] then False
         else (strings_Contains text word_sled
               \<or> strings_Contains text ''next''
               \<or> strings_Contains text words_pokazat_eshche
               \<or> strings_Contains class ''next''
               \<or> strings_Contains class ''button_next''
               \<or> strings_Contains class ''modern-page-next''
               \<or> (case href of Some h \<Rightarrow> strings_Contains h ''PAGEN_2='' | None \<Rightarrow> False)))"

definition heuristic2 :: "env \<Rightarrow> node \<Rightarrow> bool" where
  "heuristic2 env doc =
     list_ex (\<lambda>selector.
        let paginationElement = node_find doc selector
        in length paginationElement > 0
           \<and> list_ex (next_control env) (sel_Find paginationElement ''a, span, div, button''))
       paginationSelectors"

text \<open>
  3. Any link whose \<open>href\<close> has a page parameter. The current page number is read from
  \<open>category.URL\<close>, the second argument of the function.
\<close>

definition page_link :: "category \<Rightarrow> node \<Rightarrow> bool" where
  "page_link category s =
     (case Attr s ''href'' of
        None \<Rightarrow> False
      | Some href \<Rightarrow>
          if strings_Contains href ''PAGEN_2='' then
            (if strings_Contains (CatURL category) ''PAGEN_2='' then
               (let currentPageParts = strings_Split (CatURL category) ''PAGEN_2='' in
                if length currentPageParts > 1 then
                  (let currentPageStr = hd (strings_Split (currentPageParts ! 1) ''&'');
                       currentPage = strconv_Atoi currentPageStr;
                       nextPageParts = strings_Split href ''PAGEN_2=''
                   in if length nextPageParts > 1 then
                        (let nextPageStr = hd (strings_Split (nextPageParts ! 1) ''&'');
                             nextPage = strconv_Atoi nextPageStr
                         in (case (currentPage, nextPage) of
                               (Some cur, Some nxt) \<Rightarrow> nxt > cur
                             | _ \<Rightarrow> False))
                      else False)
                else False)
             else True)
          else False)"

definition heuristic3 :: "node \<Rightarrow> category \<Rightarrow> bool" where
  "heuristic3 doc category = list_ex (page_link category) (node_find doc ''a'')"

text \<open>4. The page counters of the Bitrix scripts in the HTML of the page.\<close>

definition heuristic4 :: "node \<Rightarrow> bool" where
  "heuristic4 doc =
     (case node_html doc of
        None \<Rightarrow> False
      | Some html \<Rightarrow>
          strings_Contains html ''NavPageNomer'' \<and> strings_Contains html ''NavPageCount''
          \<and> \<not> strings_Contains html ''NavPageNomer=NavPageCount'')"

text \<open>5. A script with the parameters of AJAX pagination.\<close>

definition heuristic5 :: "node \<Rightarrow> bool" where
  "heuristic5 doc =
     list_ex (\<lambda>s. let script = node_text s
                  in strings_Contains script ''bxajaxid'' \<and> strings_Contains script ''pagen'')
       (node_find doc ''script'')"

definition extractProductsFromPage :: "env \<Rightarrow> node \<Rightarrow> category \<Rightarrow> product list \<times> bool" where
  "extractProductsFromPage env doc category =
     (let products = List.map_filter (card_product env category)
                       (node_find doc ''[data-product-id]'');
          hasNextPage = heuristic1 doc;
          hasNextPage = (if \<not> hasNextPage then heuristic2 env doc else hasNextPage);
          hasNextPage = (if \<not> hasNextPage then heuristic3 doc category else hasNextPage);
          hasNextPage = (if \<not> hasNextPage then heuristic4 doc else hasNextPage);
          hasNextPage = (if \<not> hasNextPage then heuristic5 doc else hasNextPage)
      in (products, hasNextPage))"

section \<open>getProductsFromCategory\<close>

text \<open>The URL of page \<open>pageNum\<close> of a category.\<close>

definition page_url :: "category \<Rightarrow> int \<Rightarrow> string" where
  "page_url category pageNum =
     (let pageURL = CatURL category
      in if pageNum > 1 then
           (if strings_Contains pageURL ''?''
            then pageURL @ ''&PAGEN_2='' @ Sprintf_d pageNum
            else pageURL @ ''?PAGEN_2='' @ Sprintf_d pageNum)
         else pageURL)"

text \<open>
  The first part of the loop body: log line, delay, request with two attempts, decoding,
  parsing, extraction. It hands \<open>category\<close>, not the page URL, to the extraction. The
  status code of the response is not looked at.
\<close>

definition fetch_page ::
  "env \<Rightarrow> category \<Rightarrow> int \<Rightarrow> int \<Rightarrow> event list
     \<Rightarrow> (error + product list \<times> bool) \<times> event list" where
  "fetch_page env category delayMs pageNum tr =
     (let pageURL = page_url category pageNum;
          tr1 = tr @ [LogPage pageNum pageURL, Sleep (ms_Duration delayMs)]
      in case doRequestWithRetry env pageURL 2 delayMs tr1 of
           (Inl err, tr2) \<Rightarrow> (Inl err, tr2)
         | (Inr resp, tr2) \<Rightarrow>
             (case getUTF8Reader env (Body resp) of
                Inl err \<Rightarrow> (Inl err, tr2)
              | Inr utf8Reader \<Rightarrow>
                  (case NewDocumentFromReader env utf8Reader of
                     Inl err \<Rightarrow> (Inl err, tr2)
                   | Inr doc \<Rightarrow> (Inr (extractProductsFromPage env doc category), tr2))))"

text \<open>
  The loop \<open>for pageNum <= maxPages\<close>. An error of a page gives up the products of the
  pages before it (\<open>return nil, err\<close>). \<open>pageNum\<close> stays at most \<open>maxPages + 1\<close>, so the
  increment cannot overflow.
\<close>

function walk_loop ::
  "env \<Rightarrow> category \<Rightarrow> int \<Rightarrow> int \<Rightarrow> int \<Rightarrow> product list \<Rightarrow> event list
     \<Rightarrow> (error + product list) \<times> event list" where
  "walk_loop env category delayMs maxPages pageNum allProducts tr =
     (if pageNum \<le> maxPages then
        (case fetch_page env category delayMs pageNum tr of
           (Inl err, tr') \<Rightarrow> (Inl err, tr')
         | (Inr (products, hasNextPage), tr') \<Rightarrow>
             if \<not> hasNextPage \<or> length products = 0
             then (Inr (allProducts @ products), tr')
             else walk_loop env category delayMs maxPages (pageNum + 1)
                    (allProducts @ products) tr')
      else (Inr allProducts, tr))"
  by pat_completeness auto
termination
  by (relation "measure (\<lambda>(env, category, delayMs, maxPages, pageNum, allProducts, tr).
                  nat (maxPages + 1 - pageNum))") auto

declare walk_loop.simps [simp del]

text \<open>
  The walk of one category. Taking and giving back the slot of the semaphore only
  delays the walk and is left out.
\<close>

definition getProductsFromCategory ::
  "env \<Rightarrow> category \<Rightarrow> int \<Rightarrow> int \<Rightarrow> int \<Rightarrow> event list
     \<Rightarrow> (error + product list) \<times> event list" where
  "getProductsFromCategory env category startPage endPage delayMs tr =
     (let pageNum = startPage;
          maxPages = 100;
          maxPages = (if endPage > 0 \<and> endPage < maxPages then endPage else maxPages)
      in walk_loop env category delayMs maxPages pageNum [] tr)"

text \<open>The page fetches of a trace: one per pass through the loop body.\<close>

fun is_LogPage :: "event \<Rightarrow> bool" where
  "is_LogPage (LogPage n u) = True"
| "is_LogPage _ = False"

definition page_fetches :: "event list \<Rightarrow> nat" where
  "page_fetches tr = length (filter is_LogPage tr)"

section \<open>getProductDetails\<close>

text \<open>
  A call either returns a product, returns an error, or panics: indexing a slice out of
  its range stops a Go program with a run-time panic.
\<close>

datatype fault = Err error | Panic string

definition getProductDetails ::
  "env \<Rightarrow> string \<Rightarrow> int \<Rightarrow> event list \<Rightarrow> (fault + product) \<times> event list" where
  "getProductDetails env url delayMs tr =
     (let tr1 = tr @ [Sleep (ms_Duration delayMs)]
      in case doRequestWithRetry env url 2 delayMs tr1 of
           (Inl err, tr2) \<Rightarrow> (Inl (Err err), tr2)
         | (Inr resp, tr2) \<Rightarrow>
             if StatusCode resp \<noteq> 200 then (Inl (Err (BadStatus (StatusCode resp))), tr2)
             else
               (case getUTF8Reader env (Body resp) of
                  Inl err \<Rightarrow> (Inl (Err err), tr2)
                | Inr utf8Reader \<Rightarrow>
                    (case NewDocumentFromReader env utf8Reader of
                       Inl err \<Rightarrow> (Inl (Err err), tr2)
                     | Inr doc \<Rightarrow>
                         let parts = strings_Split url ''/'' in
                         if length parts > 0 \<and> int (length parts) - 2 < 0
                         then (Inl (Panic ''index out of range''), tr2)
                         else
                           let product_ID = (if length parts > 0
                                             then parts ! nat (int (length parts) - 2)
                                             else []);
                               description =
                                 TrimSpace env (sel_Text (node_find doc ''.product__description''));
                               description =
                                 (if description = []
                                  then TrimSpace env (sel_Text (node_find doc ''.product-description''))
                                  else description);
                               description =
                                 (if description = []
                                  then TrimSpace env (sel_Text (node_find doc ''.description''))
                                  else description);
                               features =
                                 filter (\<lambda>feature. feature \<noteq> [])
                                   (map (\<lambda>s. TrimSpace env (node_text s))
                                      (node_find doc
                                         ''.product__specs tr, .product-features li, .specifications li''))
                           in (Inr (zero_product\<lparr>ID := product_ID, Description := description,
                                                  Features := features\<rparr>), tr2))))"

section \<open>enrichProductsWithDetails\<close>

text \<open>
  What the loop of \<open>enrichProductsWithDetails\<close> does for one product, up to the product
  it sends on the channel: a product that has features and a description is passed on
  as it is; otherwise the goroutine fetches the details and merges them. The goroutines
  of different products share nothing but the network, whose answers are arbitrary
  here. A panic in a goroutine ends the program (\<open>Inl\<close>). The progress counters only
  feed log lines and are left out.
\<close>

definition enrich_item ::
  "env \<Rightarrow> int \<Rightarrow> product \<Rightarrow> event list \<Rightarrow> (string + product) \<times> event list" where
  "enrich_item env delayMs p tr =
     (if length (Features p) > 0 \<and> Description p \<noteq> [] then (Inr p, tr)
      else
        (let prod = p
         in case getProductDetails env (URL prod) delayMs tr of
              (Inl (Panic msg), tr') \<Rightarrow> (Inl msg, tr')
            | (Inl (Err err), tr') \<Rightarrow> (Inr prod, tr')
            | (Inr details, tr') \<Rightarrow>
                let prod = (if Description details \<noteq> []
                            then prod\<lparr>Description := Description details\<rparr> else prod);
                    prod = (if length (Features details) > 0
                            then prod\<lparr>Features := Features details\<rparr> else prod)
                in (Inr prod, tr')))"

section \<open>removeDuplicateProducts\<close>

text \<open>
  \<open>uniqueMap\<close> is the Go map of the function, kept as an association list with distinct
  keys: \<open>uniqueMap[product.ID] = product\<close> replaces the entry of a key that is there and
  adds one otherwise. Products with an empty \<open>ID\<close> are skipped by the \<open>continue\<close>.
  \<open>dedup_step\<close> is the body of the loop over the products.
\<close>

definition dedup_step :: "(string \<times> product) list \<Rightarrow> product \<Rightarrow> (string \<times> product) list" where
  "dedup_step m product =
     (if ID product = [] then m else AList.update (ID product) product m)"

definition uniqueMap :: "product list \<Rightarrow> (string \<times> product) list" where
  "uniqueMap products = foldl dedup_step [] products"

text \<open>
  The result slice is filled by \<open>range uniqueMap\<close>, and Go leaves the order of that
  iteration open; the result is therefore given up to order, as a multiset. The count of
  duplicates is only printed and is left out.
\<close>

definition removeDuplicateProducts :: "product list \<Rightarrow> product multiset" where
  "removeDuplicateProducts products = mset (map snd (uniqueMap products))"

section \<open>Sample sites\<close>

text \<open>
  Concrete environments to run the model on. \<open>sample_env get parse\<close> has the network
  \<open>get\<close> and the parser \<open>parse\<close>; it finds UTF-8 everywhere, decodes by copying the
  bytes and leaves the case and the white space of a text alone.
\<close>

definition sample_env ::
  "(event list \<Rightarrow> string \<Rightarrow> neterr + response) \<Rightarrow> (string \<Rightarrow> string + node) \<Rightarrow> env" where
  "sample_env get parse =
     \<lparr>client_Get = get, DetermineEncoding = (\<lambda>b. UTF8), Decode = (\<lambda>e b. b),
      ParseHTML = parse, TrimSpace = (\<lambda>s. s), ToLower = (\<lambda>s. s)\<rparr>"

text \<open>A leaf element with the given text and attributes, and a product card.\<close>

definition leaf :: "string \<Rightarrow> (string \<times> string) list \<Rightarrow> node" where
  "leaf t as = Node t as None (\<lambda>q. [])"

definition sample_card :: "string \<Rightarrow> node" where
  "sample_card pid =
     Node [] [(''data-product-id'', pid)] None
       (\<lambda>q. if q = ''.productCard__name''
             then [leaf ''Lathe'' [(''href'', ''/catalog/lathes/'' @ pid @ ''/'')]]
             else [])"

text \<open>A page with the given product cards and links, and nothing else.\<close>

definition sample_page :: "node list \<Rightarrow> node list \<Rightarrow> node" where
  "sample_page cards links =
     Node [] [] (Some [])
       (\<lambda>q. if q = ''[data-product-id]'' then cards
             else if q = ''a'' then links
             else [])"

definition sample_category :: category where
  "sample_category = \<lparr>CatName = ''Lathes'', CatURL = ''https://www.stanki.ru/catalog/lathes/''\<rparr>"

text \<open>
  A site that answers every request with status 200 and a page without products or
  links.
\<close>

definition ok_site :: env where
  "ok_site = sample_env (\<lambda>tr u. Inr \<lparr>StatusCode = 200, Body = Inr ''page''\<rparr>)
                        (\<lambda>s. Inr (sample_page [] []))"

text \<open>
  A product page with a description and a list of features, the site serving it for
  every URL, a site that is down, a site that answers 404 to everything, and a product
  without features.
\<close>

definition detail_page :: "string \<Rightarrow> string list \<Rightarrow> node" where
  "detail_page description features =
     Node [] [] (Some [])
       (\<lambda>q. if q = ''.product__description'' then [leaf description []]
             else if q = ''.product__specs tr, .product-features li, .specifications li''
             then map (\<lambda>f. leaf f []) features
             else [])"

definition detail_site :: "string \<Rightarrow> string list \<Rightarrow> env" where
  "detail_site description features =
     sample_env (\<lambda>tr u. Inr \<lparr>StatusCode = 200, Body = Inr ''page''\<rparr>)
                (\<lambda>s. Inr (detail_page description features))"

definition down_site :: env where
  "down_site = sample_env (\<lambda>tr u. Inl (NetErr ''timeout'')) (\<lambda>s. Inl ''no page'')"

definition not_found_site :: env where
  "not_found_site = sample_env (\<lambda>tr u. Inr \<lparr>StatusCode = 404, Body = Inr ''Not Found''\<rparr>)
                               (\<lambda>s. Inr (sample_page [] []))"

definition sample_product :: "string \<Rightarrow> string \<Rightarrow> product" where
  "sample_product pid description =
     \<lparr>ID = pid, Name = ''Lathe'', URL = ''https://www.stanki.ru/catalog/lathes/'' @ pid @ ''/'',
      Description = description, Price = ''100'', ImageURL = [], Category = ''Lathes'',
      Features = []\<rparr>"

text \<open>
  A category of three or more pages. \<open>full_page\<close> lists ten products and has one link,
  to page 2; \<open>empty_page\<close> has the same link and no product. \<open>listed_product pid\<close> is
  the record read off \<open>sample_card pid\<close>. \<open>endless_site\<close> serves \<open>full_page\<close> for every
  URL; \<open>three_page_site\<close> serves \<open>empty_page\<close> as page 3 and \<open>full_page\<close> elsewhere.
\<close>

definition listed_product :: "string \<Rightarrow> product" where
  "listed_product pid =
     \<lparr>ID = pid, Name = ''Lathe'',
      URL = ''https://www.stanki.ru/catalog/lathes/'' @ pid @ ''/'',
      Description = [], Price = [], ImageURL = ''https://www.stanki.ru'',
      Category = ''Lathes'', Features = []\<rparr>"

definition page_two_link :: node where
  "page_two_link = leaf ''2'' [(''href'', ''?PAGEN_2=2'')]"

definition full_page :: node where
  "full_page = sample_page (replicate 10 (sample_card ''7'')) [page_two_link]"

definition empty_page :: node where
  "empty_page = sample_page [] [page_two_link]"

definition endless_site :: env where
  "endless_site = sample_env (\<lambda>tr u. Inr \<lparr>StatusCode = 200, Body = Inr ''full''\<rparr>)
                             (\<lambda>s. Inr full_page)"

definition three_page_site :: env where
  "three_page_site =
     sample_env (\<lambda>tr u. if u = ''https://www.stanki.ru/catalog/lathes/?PAGEN_2=3''
                         then Inr \<lparr>StatusCode = 200, Body = Inr ''empty''\<rparr>
                         else Inr \<lparr>StatusCode = 200, Body = Inr ''full''\<rparr>)
                (\<lambda>s. if s = ''empty'' then Inr empty_page else Inr full_page)"

text \<open>
  An environment that follows the packages \<open>charset\<close> and \<open>unicode\<close> on input that
  opens with the UTF-8 byte order mark EF BB BF: the encoding found is UTF-8, and the
  UTF-8 decoder writes the replacement character for the byte FF, which no UTF-8 text
  contains, and copies the other bytes.
\<close>

definition utf8_bom :: string where
  "utf8_bom = [CHR 0xEF, CHR 0xBB, CHR 0xBF]"

definition bom_env :: env where
  "bom_env =
     \<lparr>client_Get = (\<lambda>tr u. Inl (NetErr ''unused'')),
      DetermineEncoding = (\<lambda>b. if strings_HasPrefix b utf8_bom then UTF8 else Windows1252),
      Decode = (\<lambda>e b. if e = UTF8
                        then concat (map (\<lambda>c. if c = CHR 0xFF then replacement_bytes else [c]) b)
                        else b),
      ParseHTML = (\<lambda>s. Inl ''unused''), TrimSpace = (\<lambda>s. s), ToLower = (\<lambda>s. s)\<rparr>"

section \<open>Properties of doRequestWithRetry\<close>

lemma int64_id: "- (2 ^ 63) \<le> x \<Longrightarrow> x < 2 ^ 63 \<Longrightarrow> int64 x = x"
  by (simp add: int64_def)

lemma ms_Duration_exact:
  assumes "0 \<le> x" "x * Millisecond < 2 ^ 63"
  shows "ms_Duration (int64 x) = x * Millisecond"
proof -
  have "x \<le> x * Millisecond" using assms(1) by (simp add: Millisecond_def)
  then have x: "int64 x = x" using assms by (intro int64_id) auto
  have "0 \<le> x * Millisecond" using assms(1) by (simp add: Millisecond_def)
  then show ?thesis using assms(2) by (simp add: ms_Duration_def x int64_id)
qed

lemma retry_loop_fail_step:
  "i < maxRetries \<Longrightarrow> client_Get env tr url = Inl e \<Longrightarrow>
   retry_loop env url maxRetries delayMs i err tr =
   retry_loop env url maxRetries delayMs (i + 1) (Some e)
     (tr @ [Get url, Sleep (ms_Duration (int64 (delayMs * (i + 1))))])"
  by (subst retry_loop.simps) simp

lemma retry_loop_success:
  "i < maxRetries \<Longrightarrow> client_Get env tr url = Inr resp \<Longrightarrow>
   retry_loop env url maxRetries delayMs i err tr = (Inr resp, tr @ [Get url])"
  by (subst retry_loop.simps) simp

lemma retry_loop_done:
  "\<not> i < maxRetries \<Longrightarrow>
   retry_loop env url maxRetries delayMs i err tr = (Inl (RetriesExhausted maxRetries err), tr)"
  by (subst retry_loop.simps) simp

text \<open>
  Claim C7. With \<open>maxRetries = 3\<close> and a network on which every attempt fails, the call
  makes exactly three attempts, sleeps \<open>d\<close>, \<open>2d\<close> and \<open>3d\<close> milliseconds after the
  first, second and third of them, in this order, and returns the error that the
  retries are used up, with the error of the last attempt. The delay \<open>d\<close> is not
  negative and \<open>3d\<close> milliseconds fit a \<open>time.Duration\<close>.
\<close>

theorem doRequestWithRetry_exhausted:
  assumes fail: "\<And>tr'. \<exists>e. client_Get env tr' url = Inl e"
    and d: "0 \<le> d" "3 * d * Millisecond < 2 ^ 63"
  shows "\<exists>e1 e2 e3.
     client_Get env tr url = Inl e1 \<and>
     client_Get env (tr @ [Get url, Sleep (1 * d * Millisecond)]) url = Inl e2 \<and>
     client_Get env (tr @ [Get url, Sleep (1 * d * Millisecond),
                           Get url, Sleep (2 * d * Millisecond)]) url = Inl e3 \<and>
     doRequestWithRetry env url 3 d tr =
       (Inl (RetriesExhausted 3 (Some e3)),
        tr @ [Get url, Sleep (1 * d * Millisecond),
              Get url, Sleep (2 * d * Millisecond),
              Get url, Sleep (3 * d * Millisecond)])"
proof -
  have s1: "ms_Duration (int64 d) = d * Millisecond"
    using d ms_Duration_exact[of "d"] by (simp add: Millisecond_def)
  have s2: "ms_Duration (int64 (d * 2)) = 2 * d * Millisecond"
    using d ms_Duration_exact[of "d * 2"] by (simp add: Millisecond_def)
  have s3: "ms_Duration (int64 (d * 3)) = 3 * d * Millisecond"
    using d ms_Duration_exact[of "d * 3"] by (simp add: Millisecond_def)
  define t1 where "t1 = tr @ [Get url, Sleep (d * Millisecond)]"
  define t2 where "t2 = tr @ [Get url, Sleep (d * Millisecond), Get url, Sleep (2 * d * Millisecond)]"
  define t3 where "t3 = tr @ [Get url, Sleep (d * Millisecond), Get url, Sleep (2 * d * Millisecond),
     Get url, Sleep (3 * d * Millisecond)]"
  obtain e1 where e1: "client_Get env tr url = Inl e1" using fail by blast
  obtain e2 where e2: "client_Get env t1 url = Inl e2" using fail by blast
  obtain e3 where e3: "client_Get env t2 url = Inl e3" using fail by blast
  have "retry_loop env url 3 d 0 None tr = retry_loop env url 3 d 1 (Some e1) t1"
    using retry_loop_fail_step[of 0 3 env tr url e1 d None] e1 by (simp add: s1 t1_def)
  also have "\<dots> = retry_loop env url 3 d 2 (Some e2) t2"
    using retry_loop_fail_step[of 1 3 env t1 url e2 d "Some e1"] e2
    by (simp add: s2 t1_def t2_def)
  also have "\<dots> = retry_loop env url 3 d 3 (Some e3) t3"
    using retry_loop_fail_step[of 2 3 env t2 url e3 d "Some e2"] e3
    by (simp add: s3 t2_def t3_def)
  also have "\<dots> = (Inl (RetriesExhausted 3 (Some e3)), t3)"
    by (rule retry_loop_done) simp
  finally have "doRequestWithRetry env url 3 d tr = (Inl (RetriesExhausted 3 (Some e3)), t3)"
    by (simp add: doRequestWithRetry_def)
  then show ?thesis
    using e1 e2 e3 by (simp add: t1_def t2_def t3_def)
qed

theorem doRequestWithRetry_exhausted_witness:
  "doRequestWithRetry (sample_env (\<lambda>tr url. Inl (NetErr ''timeout'')) (\<lambda>s. Inl ''unused''))
      ''https://www.stanki.ru/catalog/'' 3 500 [] =
    (Inl (RetriesExhausted 3 (Some (NetErr ''timeout''))),
     [Get ''https://www.stanki.ru/catalog/'', Sleep 500000000,
      Get ''https://www.stanki.ru/catalog/'', Sleep 1000000000,
      Get ''https://www.stanki.ru/catalog/'', Sleep 1500000000])"
  using doRequestWithRetry_exhausted
    [of "sample_env (\<lambda>tr url. Inl (NetErr ''timeout'')) (\<lambda>s. Inl ''unused'')"
        "''https://www.stanki.ru/catalog/''" 500 "[]"]
  by (simp add: sample_env_def Millisecond_def)


section \<open>Properties of getProductDetails\<close>

lemma split_from_nonempty: "split_from sep field s \<noteq> []"
  by (induction sep field s rule: split_from.induct) auto

lemma split_from_single:
  "sep \<noteq> [] \<Longrightarrow> (length (split_from sep field s) = Suc 0) = (\<not> strings_Contains s sep)"
proof (induction sep field s rule: split_from.induct)
  case (1 sep field)
  then show ?case by simp
next
  case (2 sep field c cs)
  show ?case
  proof (cases "strings_HasPrefix (c # cs) sep")
    case True
    have "split_from sep [] (drop (length sep) (c # cs)) \<noteq> []"
      by (rule split_from_nonempty)
    then show ?thesis using True 2(3) by simp
  next
    case False
    then show ?thesis using 2 by simp
  qed
qed

lemma Split_short_iff:
  "sep \<noteq> [] \<Longrightarrow> (int (length (strings_Split s sep)) - 2 < 0) = (\<not> strings_Contains s sep)"
proof -
  assume sep: "sep \<noteq> []"
  have "length (strings_Split s sep) \<noteq> 0"
    by (simp add: strings_Split_def split_from_nonempty)
  then have "(int (length (strings_Split s sep)) - 2 < 0) = (length (strings_Split s sep) = 1)"
    by linarith
  then show ?thesis using sep by (simp add: strings_Split_def split_from_single)
qed

text \<open>
  Claim C10. \<open>getProductDetails\<close> takes the last but one of the fields of the URL
  between slashes. When the URL has a slash, no call panics, whatever the network and
  the parser do. When the URL has no slash and the page is fetched with status 200,
  read and parsed, the index is \<open>-1\<close> and the call panics instead of returning a
  product or an error.
\<close>

theorem getProductDetails_panics_without_slash:
  "(strings_Contains url ''/'' \<longrightarrow>
      (\<forall>msg. fst (getProductDetails env url d tr) \<noteq> Inl (Panic msg)))
   \<and> (\<not> strings_Contains url ''/''
        \<and> doRequestWithRetry env url 2 d (tr @ [Sleep (ms_Duration d)]) = (Inr resp, tr2)
        \<and> StatusCode resp = 200
        \<and> getUTF8Reader env (Body resp) = Inr rd
        \<and> NewDocumentFromReader env rd = Inr doc
      \<longrightarrow> getProductDetails env url d tr = (Inl (Panic ''index out of range''), tr2))"
proof (intro conjI impI allI)
  fix msg
  assume "strings_Contains url ''/''"
  then have long: "\<not> int (length (strings_Split url ''/'')) - 2 < 0"
    using Split_short_iff[of "''/''" url] by simp
  show "fst (getProductDetails env url d tr) \<noteq> Inl (Panic msg)"
    using long
    by (simp add: getProductDetails_def Let_def split: prod.splits sum.splits)
next
  assume a: "\<not> strings_Contains url ''/''
        \<and> doRequestWithRetry env url 2 d (tr @ [Sleep (ms_Duration d)]) = (Inr resp, tr2)
        \<and> StatusCode resp = 200
        \<and> getUTF8Reader env (Body resp) = Inr rd
        \<and> NewDocumentFromReader env rd = Inr doc"
  then have short: "int (length (strings_Split url ''/'')) - 2 < 0"
    using Split_short_iff[of "''/''" url] by simp
  have "length (strings_Split url ''/'') \<noteq> 0"
    by (simp add: strings_Split_def split_from_nonempty)
  then show "getProductDetails env url d tr = (Inl (Panic ''index out of range''), tr2)"
    using a short by (simp add: getProductDetails_def Let_def)
qed


lemma doRequestWithRetry_first_ok:
  "0 < maxRetries \<Longrightarrow> client_Get env tr url = Inr resp \<Longrightarrow>
   doRequestWithRetry env url maxRetries d tr = (Inr resp, tr @ [Get url])"
  by (simp add: doRequestWithRetry_def retry_loop_success)

lemma ms_Duration_500: "ms_Duration 500 = 500000000"
  by (simp add: ms_Duration_def int64_def Millisecond_def)

theorem getProductDetails_panics_without_slash_witness:
  "getProductDetails ok_site ''product-42'' 500 [] =
     (Inl (Panic ''index out of range''), [Sleep 500000000, Get ''product-42''])
   \<and> (\<forall>msg. fst (getProductDetails ok_site ''https://www.stanki.ru/catalog/lathes/42/'' 500 [])
         \<noteq> Inl (Panic msg))"
proof -
  have get: "doRequestWithRetry ok_site ''product-42'' 2 500 ([] @ [Sleep (ms_Duration 500)])
      = (Inr \<lparr>StatusCode = 200, Body = Inr ''page''\<rparr>, [Sleep 500000000, Get ''product-42''])"
    by (subst doRequestWithRetry_first_ok[where resp = "\<lparr>StatusCode = 200, Body = Inr ''page''\<rparr>"])
       (simp_all add: ok_site_def sample_env_def ms_Duration_500)
  have rd: "getUTF8Reader ok_site (Inr ''page'') = Inr (UTF8, ''page'')"
    by (simp add: getUTF8Reader_def ok_site_def sample_env_def replacement_bytes_def
        replacement_rune_def)
  have doc: "NewDocumentFromReader ok_site (UTF8, ''page'') = Inr (sample_page [] [])"
    by (simp add: NewDocumentFromReader_def ok_site_def sample_env_def)
  have "getProductDetails ok_site ''product-42'' 500 [] =
     (Inl (Panic ''index out of range''), [Sleep 500000000, Get ''product-42''])"
    using getProductDetails_panics_without_slash
      [of "''product-42''" ok_site 500 "[]" "\<lparr>StatusCode = 200, Body = Inr ''page''\<rparr>"
          "[Sleep 500000000, Get ''product-42'']" "(UTF8, ''page'')" "sample_page [] []"]
      get rd doc
    by simp
  moreover have "\<forall>msg. fst (getProductDetails ok_site ''https://www.stanki.ru/catalog/lathes/42/'' 500 [])
         \<noteq> Inl (Panic msg)"
    using getProductDetails_panics_without_slash
      [of "''https://www.stanki.ru/catalog/lathes/42/''" ok_site 500 "[]"]
    by simp
  ultimately show ?thesis by simp
qed

section \<open>Properties of enrichment and of the status check\<close>

text \<open>
  Claim C5. For one product: when fetching the details ends in an error, the product
  sent on is the product as it was, so a description that was there is still there.
  When the details are fetched, the description is replaced exactly if the fetched
  description is not empty and the features exactly if the fetched list is not empty,
  and nothing else changes. A product that has features and a description is passed on
  untouched, without a fetch.
\<close>

theorem enrich_item_merge:
  "(getProductDetails env (URL p) d tr = (Inl (Err err), tr') \<longrightarrow>
      fst (enrich_item env d p tr) = Inr p)
   \<and> (getProductDetails env (URL p) d tr = (Inr details, tr')
        \<and> \<not> (length (Features p) > 0 \<and> Description p \<noteq> []) \<longrightarrow>
      enrich_item env d p tr =
        (Inr (p\<lparr>Description := (if Description details \<noteq> [] then Description details
                                 else Description p),
                 Features := (if length (Features details) > 0 then Features details
                              else Features p)\<rparr>), tr'))
   \<and> (length (Features p) > 0 \<and> Description p \<noteq> [] \<longrightarrow>
      enrich_item env d p tr = (Inr p, tr))"
  by (simp add: enrich_item_def)

lemma ms_Duration_int64_500: "ms_Duration (int64 500) = 500000000"
  by (simp add: ms_Duration_def int64_def Millisecond_def)

lemma ms_Duration_int64_1000: "ms_Duration (int64 1000) = 1000000000"
  by (simp add: ms_Duration_def int64_def Millisecond_def)

lemma details_down:
  "getProductDetails down_site ''https://www.stanki.ru/catalog/lathes/42/'' 500 [] =
     (Inl (Err (RetriesExhausted 2 (Some (NetErr ''timeout'')))),
      [Sleep 500000000, Get ''https://www.stanki.ru/catalog/lathes/42/'', Sleep 500000000,
       Get ''https://www.stanki.ru/catalog/lathes/42/'', Sleep 1000000000])"
  by (simp add: getProductDetails_def down_site_def sample_env_def doRequestWithRetry_def
      retry_loop.simps ms_Duration_500 ms_Duration_int64_500 ms_Duration_int64_1000)

lemma details_page:
  "getProductDetails (detail_site description features)
      ''https://www.stanki.ru/catalog/lathes/42/'' 500 [] =
     (Inr (zero_product\<lparr>ID := ''42'', Description := description,
             Features := filter (\<lambda>f. f \<noteq> []) features\<rparr>),
      [Sleep 500000000, Get ''https://www.stanki.ru/catalog/lathes/42/''])"
  by (simp add: getProductDetails_def detail_site_def sample_env_def doRequestWithRetry_def
      retry_loop.simps ms_Duration_500 getUTF8Reader_def replacement_bytes_def
      replacement_rune_def NewDocumentFromReader_def detail_page_def strings_Split_def
      sel_Text_def leaf_def comp_def)

theorem enrich_item_merge_witness:
  "fst (enrich_item down_site 500 (sample_product ''42'' ''Y'') [])
     = Inr (sample_product ''42'' ''Y'')
   \<and> fst (enrich_item (detail_site ''X'' []) 500 (sample_product ''42'' []) [])
     = Inr ((sample_product ''42'' [])\<lparr>Description := ''X''\<rparr>)
   \<and> fst (enrich_item (detail_site [] [''f'']) 500 (sample_product ''42'' ''Y'') [])
     = Inr ((sample_product ''42'' ''Y'')\<lparr>Features := [''f'']\<rparr>)"
proof -
  have u: "URL (sample_product ''42'' y) = ''https://www.stanki.ru/catalog/lathes/42/''" for y
    by (simp add: sample_product_def)
  have f: "Features (sample_product ''42'' y) = []" for y
    by (simp add: sample_product_def)
  have 1: "fst (enrich_item down_site 500 (sample_product ''42'' ''Y'') [])
     = Inr (sample_product ''42'' ''Y'')"
    using enrich_item_merge[of down_site "sample_product ''42'' ''Y''" 500 "[]"] details_down
    by (simp add: u)
  have 2: "fst (enrich_item (detail_site ''X'' []) 500 (sample_product ''42'' []) [])
     = Inr ((sample_product ''42'' [])\<lparr>Description := ''X''\<rparr>)"
    using enrich_item_merge[of "detail_site ''X'' []" "sample_product ''42'' []" 500 "[]"]
      details_page[of "''X''" "[]"]
    by (simp add: u f)
  have 3: "fst (enrich_item (detail_site [] [''f'']) 500 (sample_product ''42'' ''Y'') [])
     = Inr ((sample_product ''42'' ''Y'')\<lparr>Features := [''f'']\<rparr>)"
    using enrich_item_merge[of "detail_site [] [''f'']" "sample_product ''42'' ''Y''" 500 "[]"]
      details_page[of "[]" "[''f'']"]
    by (simp add: u f)
  show ?thesis using 1 2 3 by simp
qed

text \<open>
  Claim C8. On a site that answers 404 to every request, the walk of a category ends
  without an error and with no products: \<open>getProductsFromCategory\<close> never reads the
  status code. \<open>getProductDetails\<close> on the same site returns the status error after a
  single attempt.
\<close>

theorem category_page_status_ignored:
  "getProductsFromCategory not_found_site sample_category 1 0 500 [] =
     (Inr [], [LogPage 1 ''https://www.stanki.ru/catalog/lathes/'', Sleep 500000000,
               Get ''https://www.stanki.ru/catalog/lathes/''])
   \<and> getProductDetails not_found_site ''https://www.stanki.ru/catalog/lathes/42/'' 500 [] =
     (Inl (Err (BadStatus 404)),
      [Sleep 500000000, Get ''https://www.stanki.ru/catalog/lathes/42/''])"
proof -
  have page: "fetch_page not_found_site sample_category 500 1 [] =
     (Inr ([], False), [LogPage 1 ''https://www.stanki.ru/catalog/lathes/'', Sleep 500000000,
               Get ''https://www.stanki.ru/catalog/lathes/''])"
    by (simp add: fetch_page_def page_url_def sample_category_def not_found_site_def
        sample_env_def doRequestWithRetry_def retry_loop.simps ms_Duration_500
        getUTF8Reader_def replacement_bytes_def replacement_rune_def
        NewDocumentFromReader_def extractProductsFromPage_def sample_page_def
        Let_def heuristic1_def heuristic2_def heuristic3_def heuristic4_def
        heuristic5_def paginationSelectors_def sel_Find_def)
  have walk: "getProductsFromCategory not_found_site sample_category 1 0 500 [] =
     (Inr [], [LogPage 1 ''https://www.stanki.ru/catalog/lathes/'', Sleep 500000000,
               Get ''https://www.stanki.ru/catalog/lathes/''])"
    by (simp add: getProductsFromCategory_def walk_loop.simps[of _ _ _ _ 1] page)
  have det: "getProductDetails not_found_site ''https://www.stanki.ru/catalog/lathes/42/'' 500 [] =
     (Inl (Err (BadStatus 404)),
      [Sleep 500000000, Get ''https://www.stanki.ru/catalog/lathes/42/''])"
    by (simp add: getProductDetails_def not_found_site_def sample_env_def
        doRequestWithRetry_def retry_loop.simps ms_Duration_500)
  show ?thesis using walk det by simp
qed

section \<open>Properties of getProductsFromCategory\<close>

lemma retry_loop_fetches:
  "page_fetches (snd (retry_loop env url maxRetries delayMs i err tr)) = page_fetches tr"
proof (induction env url maxRetries delayMs i err tr rule: retry_loop.induct)
  case (1 env url maxRetries delayMs i err tr)
  show ?case
  proof (cases "i < maxRetries")
    case False
    then show ?thesis by (simp add: retry_loop_done)
  next
    case True
    show ?thesis
    proof (cases "client_Get env tr url")
      case (Inl e)
      then show ?thesis
        using 1[OF True Inl] True
        by (simp add: retry_loop_fail_step page_fetches_def)
    next
      case (Inr resp)
      then show ?thesis using True by (simp add: retry_loop_success page_fetches_def)
    qed
  qed
qed

lemma fetch_page_fetches:
  "page_fetches (snd (fetch_page env category delayMs pageNum tr)) = Suc (page_fetches tr)"
proof -
  let ?tr1 = "tr @ [LogPage pageNum (page_url category pageNum), Sleep (ms_Duration delayMs)]"
  let ?r = "doRequestWithRetry env (page_url category pageNum) 2 delayMs ?tr1"
  have "page_fetches (snd ?r) = page_fetches ?tr1"
    by (simp add: doRequestWithRetry_def retry_loop_fetches)
  also have "\<dots> = Suc (page_fetches tr)"
    by (simp add: page_fetches_def)
  finally have r: "page_fetches (snd ?r) = Suc (page_fetches tr)" .
  have "snd (fetch_page env category delayMs pageNum tr) = snd ?r"
    by (simp add: fetch_page_def Let_def split: prod.splits sum.splits)
  then show ?thesis using r by simp
qed

lemma walk_loop_fetches:
  "page_fetches (snd (walk_loop env category delayMs maxPages pageNum allProducts tr))
     \<le> page_fetches tr + nat (maxPages + 1 - pageNum)"
proof (induction env category delayMs maxPages pageNum allProducts tr rule: walk_loop.induct)
  case (1 env category delayMs maxPages pageNum allProducts tr)
  show ?case
  proof (cases "pageNum \<le> maxPages")
    case False
    then show ?thesis by (subst walk_loop.simps) simp
  next
    case True
    obtain r tr' where fp: "fetch_page env category delayMs pageNum tr = (r, tr')"
      by (cases "fetch_page env category delayMs pageNum tr")
    have tr': "page_fetches tr' = Suc (page_fetches tr)"
      using fetch_page_fetches[of env category delayMs pageNum tr] fp by simp
    have step: "Suc (page_fetches tr) + nat (maxPages + 1 - (pageNum + 1))
        = page_fetches tr + nat (maxPages + 1 - pageNum)"
      using True by linarith
    show ?thesis
    proof (cases r)
      case (Inl err)
      then show ?thesis using True fp tr' by (subst walk_loop.simps) simp
    next
      case (Inr page)
      obtain products hasNextPage where page: "page = (products, hasNextPage)"
        by (cases page)
      show ?thesis
      proof (cases "\<not> hasNextPage \<or> length products = 0")
        case stop: True
        then show ?thesis
          using True fp tr' Inr page by (subst walk_loop.simps) auto
      next
        case go: False
        have "page_fetches (snd (walk_loop env category delayMs maxPages (pageNum + 1)
                 (allProducts @ products) tr'))
              \<le> page_fetches tr' + nat (maxPages + 1 - (pageNum + 1))"
          using 1[OF True _ _ _ go] fp Inr page by simp
        then show ?thesis
          using True fp tr' Inr page go step by (subst walk_loop.simps) auto
      qed
    qed
  qed
qed

text \<open>
  Claim C1, amended. A walk that starts at page \<open>s \<ge> 1\<close> logs and fetches at most
  \<open>max 0 (min 100 (e - s + 1))\<close> pages when the end page \<open>e\<close> is positive and at most
  100 otherwise, whatever the network, the parser and the checks for a next page
  answer.
\<close>

theorem page_fetches_bounded:
  assumes "1 \<le> startPage"
  shows "int (page_fetches (snd (getProductsFromCategory env category startPage endPage delayMs tr)))
         \<le> int (page_fetches tr)
            + (if endPage > 0 then max 0 (min 100 (endPage - startPage + 1)) else 100)"
proof -
  define maxPages :: int where "maxPages = (if endPage > 0 \<and> endPage < 100 then endPage else 100)"
  have "page_fetches (snd (walk_loop env category delayMs maxPages startPage [] tr))
         \<le> page_fetches tr + nat (maxPages + 1 - startPage)"
    by (rule walk_loop_fetches)
  then have "int (page_fetches (snd (walk_loop env category delayMs maxPages startPage [] tr)))
         \<le> int (page_fetches tr) + int (nat (maxPages + 1 - startPage))"
    by linarith
  moreover have "int (nat (maxPages + 1 - startPage))
       \<le> (if endPage > 0 then max 0 (min 100 (endPage - startPage + 1)) else 100)"
    using assms by (auto simp: maxPages_def)
  ultimately show ?thesis
    by (simp add: getProductsFromCategory_def maxPages_def Let_def)
qed


lemma map_filter_replicate:
  "List.map_filter f (replicate n x) = (case f x of None \<Rightarrow> [] | Some y \<Rightarrow> replicate n y)"
  by (induction n) (auto split: option.splits)

lemma card_product_sample:
  "card_product (sample_env get parse) sample_category (sample_card ''7'')
     = Some (listed_product ''7'')"
  by (simp add: card_product_def sample_card_def Attr_def sel_Attr_def sel_Text_def leaf_def
      sample_env_def sample_category_def listed_product_def baseURL_def)

lemma page_two_link_first_page: "page_link sample_category page_two_link = True"
  by (simp add: page_link_def page_two_link_def leaf_def Attr_def sample_category_def)

lemma extract_full_page:
  "extractProductsFromPage (sample_env get parse) full_page sample_category
     = (replicate 10 (listed_product ''7''), True)"
  by (simp add: extractProductsFromPage_def full_page_def sample_page_def
      map_filter_replicate card_product_sample heuristic3_def page_two_link_first_page
      Let_def)

lemma extract_empty_page:
  "extractProductsFromPage (sample_env get parse) empty_page sample_category = ([], True)"
  by (simp add: extractProductsFromPage_def empty_page_def sample_page_def
      heuristic3_def page_two_link_first_page Let_def)

lemma getUTF8Reader_sample:
  "\<not> strings_Contains b replacement_bytes \<Longrightarrow>
   getUTF8Reader (sample_env get parse) (Inr b) = Inr (UTF8, b)"
  by (simp add: getUTF8Reader_def sample_env_def replacement_bytes_def replacement_rune_def)

lemma fetch_page_endless:
  "fetch_page endless_site sample_category 500 n tr =
     (Inr (replicate 10 (listed_product ''7''), True),
      tr @ [LogPage n (page_url sample_category n), Sleep 500000000,
            Get (page_url sample_category n)])"
proof -
  have get: "doRequestWithRetry endless_site u 2 500 t
      = (Inr \<lparr>StatusCode = 200, Body = Inr ''full''\<rparr>, t @ [Get u])" for u t
    by (rule doRequestWithRetry_first_ok) (simp_all add: endless_site_def sample_env_def)
  have rd: "getUTF8Reader endless_site (Inr ''full'') = Inr (UTF8, ''full'')"
    unfolding endless_site_def
    by (rule getUTF8Reader_sample) (simp add: replacement_bytes_def)
  have doc: "NewDocumentFromReader endless_site (UTF8, ''full'') = Inr full_page"
    by (simp add: NewDocumentFromReader_def endless_site_def sample_env_def)
  have ex: "extractProductsFromPage endless_site full_page sample_category
     = (replicate 10 (listed_product ''7''), True)"
    unfolding endless_site_def by (rule extract_full_page)
  show ?thesis
    by (simp add: fetch_page_def Let_def get rd doc ex ms_Duration_500)
qed

lemma walk_loop_endless:
  "page_fetches (snd (walk_loop endless_site sample_category 500 maxPages pageNum allProducts tr))
     = page_fetches tr + nat (maxPages + 1 - pageNum)"
proof (induction endless_site sample_category "500 :: int" maxPages pageNum allProducts tr
       rule: walk_loop.induct)
  case (1 maxPages pageNum allProducts tr)
  show ?case
  proof (cases "pageNum \<le> maxPages")
    case False
    then show ?thesis by (subst walk_loop.simps) simp
  next
    case True
    let ?tr' = "tr @ [LogPage pageNum (page_url sample_category pageNum), Sleep 500000000,
            Get (page_url sample_category pageNum)]"
    have tr': "page_fetches ?tr' = Suc (page_fetches tr)"
      by (simp add: page_fetches_def)
    have step: "Suc (page_fetches tr) + nat (maxPages + 1 - (pageNum + 1))
        = page_fetches tr + nat (maxPages + 1 - pageNum)"
      using True by linarith
    have "page_fetches (snd (walk_loop endless_site sample_category 500 maxPages (pageNum + 1)
             (allProducts @ replicate 10 (listed_product ''7'')) ?tr'))
          = page_fetches ?tr' + nat (maxPages + 1 - (pageNum + 1))"
      by (rule 1[OF True]) (simp_all add: fetch_page_endless)
    then show ?thesis
      using True tr' step
      by (subst walk_loop.simps) (simp add: fetch_page_endless)
  qed
qed

lemma page_fetches_Nil: "page_fetches [] = 0"
  by (simp add: page_fetches_def)

text \<open>
  The claim as stated fails twice on a site where every page has products and a next
  page: from start page 0 without an end page the walk fetches 101 pages, and from
  start page 5 with end page 2 it fetches none, which is more than \<open>min 100 (2 - 5 + 1)\<close>.
\<close>

theorem page_fetches_bound_counterexample:
  "\<not> (int (page_fetches (snd (getProductsFromCategory endless_site sample_category 0 0 500 [])))
        \<le> 100)
   \<and> \<not> (int (page_fetches (snd (getProductsFromCategory endless_site sample_category 5 2 500 [])))
        \<le> min 100 (2 - 5 + 1))"
  by (simp add: getProductsFromCategory_def walk_loop_endless page_fetches_Nil)

theorem page_fetches_bounded_witness:
  "int (page_fetches (snd (getProductsFromCategory endless_site sample_category 1 0 500 []))) = 100
   \<and> int (page_fetches (snd (getProductsFromCategory endless_site sample_category 3 5 500 []))) = 3"
proof -
  have "int (page_fetches (snd (getProductsFromCategory endless_site sample_category 1 0 500 []))) \<le> 100"
    using page_fetches_bounded[of 1 endless_site sample_category 0 500 "[]"]
    by (simp add: page_fetches_Nil)
  moreover have
    "int (page_fetches (snd (getProductsFromCategory endless_site sample_category 3 5 500 []))) \<le> 3"
    using page_fetches_bounded[of 3 endless_site sample_category 5 500 "[]"]
    by (simp add: page_fetches_Nil)
  moreover have
    "page_fetches (snd (getProductsFromCategory endless_site sample_category 1 0 500 [])) = 100"
    "page_fetches (snd (getProductsFromCategory endless_site sample_category 3 5 500 [])) = 3"
    by (simp_all add: getProductsFromCategory_def walk_loop_endless page_fetches_Nil)
  ultimately show ?thesis by simp
qed


text \<open>
  Claim C3. When the page at the current position is fetched and yields no product, the
  loop ends there: the walk returns the products of the pages before and the trace
  ends with the request of that page, whether or not a next page was found. The
  witness is the walk of three pages with ten, ten and no products, the last with a
  next page found: twenty products and three page fetches.
\<close>

theorem walk_stops_on_empty_page:
  assumes "pageNum \<le> maxPages"
    and "fetch_page env category delayMs pageNum tr = (Inr ([], hasNextPage), tr')"
  shows "walk_loop env category delayMs maxPages pageNum allProducts tr = (Inr allProducts, tr')"
  using assms by (subst walk_loop.simps) simp

lemma page_url_sample:
  "page_url sample_category 1 = ''https://www.stanki.ru/catalog/lathes/''"
  "page_url sample_category 2 = ''https://www.stanki.ru/catalog/lathes/?PAGEN_2=2''"
  "page_url sample_category 3 = ''https://www.stanki.ru/catalog/lathes/?PAGEN_2=3''"
  "page_url sample_category 4 = ''https://www.stanki.ru/catalog/lathes/?PAGEN_2=4''"
  by code_simp+

lemma fetch_page_three:
  "fetch_page three_page_site sample_category 500 n tr =
     (Inr (if n = 3 then [] else replicate 10 (listed_product ''7''), True),
      tr @ [LogPage n (page_url sample_category n), Sleep 500000000,
            Get (page_url sample_category n)])"
  if "n = 1 \<or> n = 2 \<or> n = 3"
proof -
  have url: "(page_url sample_category n = ''https://www.stanki.ru/catalog/lathes/?PAGEN_2=3'')
      = (n = 3)"
    using that by (auto simp: page_url_sample)
  let ?body = "if n = 3 then ''empty'' else ''full''"
  have get: "doRequestWithRetry three_page_site (page_url sample_category n) 2 500 t
      = (Inr \<lparr>StatusCode = 200, Body = Inr ?body\<rparr>, t @ [Get (page_url sample_category n)])" for t
    by (rule doRequestWithRetry_first_ok) (simp_all add: three_page_site_def sample_env_def url)
  have rd: "getUTF8Reader three_page_site (Inr ?body) = Inr (UTF8, ?body)"
    unfolding three_page_site_def
    by (rule getUTF8Reader_sample) (simp add: replacement_bytes_def)
  have doc: "NewDocumentFromReader three_page_site (UTF8, ?body)
      = Inr (if n = 3 then empty_page else full_page)"
    by (simp add: NewDocumentFromReader_def three_page_site_def sample_env_def)
  have ex: "extractProductsFromPage three_page_site (if n = 3 then empty_page else full_page)
       sample_category
     = (if n = 3 then [] else replicate 10 (listed_product ''7''), True)"
    unfolding three_page_site_def by (simp add: extract_full_page extract_empty_page)
  show ?thesis
    by (simp add: fetch_page_def Let_def get rd doc ex ms_Duration_500)
qed

theorem walk_stops_on_empty_page_witness:
  "getProductsFromCategory three_page_site sample_category 1 0 500 [] =
     (Inr (replicate 20 (listed_product ''7'')),
      [LogPage 1 ''https://www.stanki.ru/catalog/lathes/'', Sleep 500000000,
       Get ''https://www.stanki.ru/catalog/lathes/'',
       LogPage 2 ''https://www.stanki.ru/catalog/lathes/?PAGEN_2=2'', Sleep 500000000,
       Get ''https://www.stanki.ru/catalog/lathes/?PAGEN_2=2'',
       LogPage 3 ''https://www.stanki.ru/catalog/lathes/?PAGEN_2=3'', Sleep 500000000,
       Get ''https://www.stanki.ru/catalog/lathes/?PAGEN_2=3''])"
proof -
  define t1 where "t1 = [LogPage 1 (page_url sample_category 1), Sleep 500000000,
       Get (page_url sample_category 1)]"
  define t2 where "t2 = t1 @ [LogPage 2 (page_url sample_category 2), Sleep 500000000,
       Get (page_url sample_category 2)]"
  define t3 where "t3 = t2 @ [LogPage 3 (page_url sample_category 3), Sleep 500000000,
       Get (page_url sample_category 3)]"
  define ten where "ten = replicate 10 (listed_product ''7'')"
  have p1: "fetch_page three_page_site sample_category 500 1 [] = (Inr (ten, True), t1)"
    using fetch_page_three[of 1 "[]"] by (simp add: t1_def ten_def)
  have p2: "fetch_page three_page_site sample_category 500 2 t1 = (Inr (ten, True), t2)"
    using fetch_page_three[of 2 t1] by (simp add: t2_def ten_def)
  have p3: "fetch_page three_page_site sample_category 500 3 t2 = (Inr ([], True), t3)"
    using fetch_page_three[of 3 t2] by (simp add: t3_def)
  have ten_ne: "ten \<noteq> []" by (simp add: ten_def)
  have w3: "walk_loop three_page_site sample_category 500 100 3 (ten @ ten) t2
      = (Inr (ten @ ten), t3)"
    using walk_stops_on_empty_page[of 3 100 three_page_site sample_category 500 t2 True t3
        "ten @ ten"] p3
    by simp
  have w2: "walk_loop three_page_site sample_category 500 100 2 ten t1 = (Inr (ten @ ten), t3)"
    using p2 w3 ten_ne by (subst walk_loop.simps) simp
  have w1: "walk_loop three_page_site sample_category 500 100 1 [] []  = (Inr (ten @ ten), t3)"
    using p1 w2 ten_ne by (subst walk_loop.simps) simp
  have twenty: "ten @ ten = replicate 20 (listed_product ''7'')"
    by (simp add: ten_def replicate_add[symmetric])
  note urls = page_url_sample
  show ?thesis
    using w1 twenty by (simp add: getProductsFromCategory_def t1_def t2_def t3_def urls
       )
qed


text \<open>
  The third check by itself: when the URL it is given has a page parameter, it holds
  only if some link of the page has a page number above the number in that URL.
\<close>

lemma heuristic3_with_page_parameter:
  assumes "strings_Contains (CatURL category) ''PAGEN_2=''"
    and "heuristic3 doc category"
  shows "\<exists>s \<in> set (node_find doc ''a''). \<exists>href cur nxt.
           Attr s ''href'' = Some href
           \<and> strconv_Atoi (hd (strings_Split (strings_Split (CatURL category) ''PAGEN_2='' ! 1) ''&''))
               = Some cur
           \<and> strconv_Atoi (hd (strings_Split (strings_Split href ''PAGEN_2='' ! 1) ''&''))
               = Some nxt
           \<and> cur < nxt"
proof -
  obtain s where s: "s \<in> set (node_find doc ''a'')" "page_link category s"
    using assms(2) by (auto simp: heuristic3_def list_ex_iff)
  show ?thesis
    using s assms(1)
    by (auto simp: page_link_def Let_def split: option.splits if_splits intro!: bexI[of _ s])
qed

text \<open>
  Claim C2. Page 3 of the category is fetched; it lists ten products and its only link
  goes to page 2. The third check holds on it, because the walk hands the URL of the
  category, which has no page parameter, to the extraction; no other check holds.
  With the URL of page 3 the same check fails. The walk from page 3 to page 4 goes on
  to fetch page 4.
\<close>

theorem heuristic3_reads_category_url:
  "heuristic3 full_page sample_category = True
   \<and> heuristic3 full_page
        \<lparr>CatName = ''Lathes'', CatURL = ''https://www.stanki.ru/catalog/lathes/?PAGEN_2=3''\<rparr>
       = False
   \<and> heuristic1 full_page = False
   \<and> heuristic2 endless_site full_page = False
   \<and> heuristic4 full_page = False
   \<and> heuristic5 full_page = False
   \<and> fetch_page endless_site sample_category 500 3 [] =
       (Inr (replicate 10 (listed_product ''7''), True),
        [LogPage 3 ''https://www.stanki.ru/catalog/lathes/?PAGEN_2=3'', Sleep 500000000,
         Get ''https://www.stanki.ru/catalog/lathes/?PAGEN_2=3''])
   \<and> snd (getProductsFromCategory endless_site sample_category 3 4 500 []) =
       [LogPage 3 ''https://www.stanki.ru/catalog/lathes/?PAGEN_2=3'', Sleep 500000000,
        Get ''https://www.stanki.ru/catalog/lathes/?PAGEN_2=3'',
        LogPage 4 ''https://www.stanki.ru/catalog/lathes/?PAGEN_2=4'', Sleep 500000000,
        Get ''https://www.stanki.ru/catalog/lathes/?PAGEN_2=4'']"
proof -
  have h3: "heuristic3 full_page sample_category = True"
    by (simp add: heuristic3_def full_page_def sample_page_def page_two_link_first_page)
  have h3': "heuristic3 full_page
        \<lparr>CatName = ''Lathes'', CatURL = ''https://www.stanki.ru/catalog/lathes/?PAGEN_2=3''\<rparr>
       = False"
    by (simp add: heuristic3_def full_page_def sample_page_def page_link_def page_two_link_def
        leaf_def Attr_def strings_Split_def strconv_Atoi_def is_digit_def)
  have h1: "heuristic1 full_page = False"
    by (simp add: heuristic1_def full_page_def sample_page_def)
  have h2: "heuristic2 endless_site full_page = False"
    by (simp add: heuristic2_def full_page_def sample_page_def paginationSelectors_def)
  have h4: "heuristic4 full_page = False"
    by (simp add: heuristic4_def full_page_def sample_page_def)
  have h5: "heuristic5 full_page = False"
    by (simp add: heuristic5_def full_page_def sample_page_def)
  have p3: "fetch_page endless_site sample_category 500 3 [] =
       (Inr (replicate 10 (listed_product ''7''), True),
        [LogPage 3 ''https://www.stanki.ru/catalog/lathes/?PAGEN_2=3'', Sleep 500000000,
         Get ''https://www.stanki.ru/catalog/lathes/?PAGEN_2=3''])"
    using fetch_page_endless[of 3 "[]"] by (simp add: page_url_sample)
  define t3 where "t3 = [LogPage 3 ''https://www.stanki.ru/catalog/lathes/?PAGEN_2=3'',
         Sleep 500000000, Get ''https://www.stanki.ru/catalog/lathes/?PAGEN_2=3'']"
  define t4 where "t4 = t3 @ [LogPage 4 ''https://www.stanki.ru/catalog/lathes/?PAGEN_2=4'',
         Sleep 500000000, Get ''https://www.stanki.ru/catalog/lathes/?PAGEN_2=4'']"
  define ten where "ten = replicate 10 (listed_product ''7'')"
  have ten_ne: "ten \<noteq> []" by (simp add: ten_def)
  have f3: "fetch_page endless_site sample_category 500 3 [] = (Inr (ten, True), t3)"
    using p3 by (simp add: t3_def ten_def)
  have f4: "fetch_page endless_site sample_category 500 4 t3 = (Inr (ten, True), t4)"
    using fetch_page_endless[of 4 t3] by (simp add: page_url_sample t4_def ten_def)
  have w5: "walk_loop endless_site sample_category 500 4 5 (ten @ ten) t4 = (Inr (ten @ ten), t4)"
    by (subst walk_loop.simps) simp
  have w4: "walk_loop endless_site sample_category 500 4 4 ten t3 = (Inr (ten @ ten), t4)"
    using f4 w5 ten_ne by (subst walk_loop.simps) simp
  have w3: "walk_loop endless_site sample_category 500 4 3 [] [] = (Inr (ten @ ten), t4)"
    using f3 w4 ten_ne by (subst walk_loop.simps) simp
  have walk: "snd (getProductsFromCategory endless_site sample_category 3 4 500 []) = t4"
    using w3 by (simp add: getProductsFromCategory_def)
  show ?thesis
    using h3 h3' h1 h2 h4 h5 p3 walk unfolding t4_def t3_def by simp
qed

section \<open>Properties of removeDuplicateProducts\<close>

lemma uniqueMap_foldl: "uniqueMap products = foldl dedup_step [] products"
  by (simp add: uniqueMap_def)

lemma length_update_le: "length (AList.update k v al) \<le> Suc (length al)"
  by (induction al) auto

lemma foldl_dedup_length: "length (foldl dedup_step m ps) \<le> length m + length ps"
proof (induction ps arbitrary: m)
  case Nil
  then show ?case by simp
next
  case (Cons p ps)
  have "length (dedup_step m p) \<le> Suc (length m)"
    using length_update_le[of "ID p" p m] by (simp add: dedup_step_def)
  then show ?case using Cons[of "dedup_step m p"] by simp
qed

lemma foldl_dedup_distinct:
  "distinct (map fst m) \<Longrightarrow> distinct (map fst (foldl dedup_step m ps))"
  by (induction ps arbitrary: m) (simp_all add: dedup_step_def distinct_update)

lemma find_app:
  "find P (xs @ ys) = (case find P xs of None \<Rightarrow> find P ys | Some x \<Rightarrow> Some x)"
  by (induction xs) auto

lemma foldl_dedup_map_of:
  "map_of (foldl dedup_step m ps) k =
     (case (if k = [] then None else find (\<lambda>q. ID q = k) (rev ps)) of
        Some p \<Rightarrow> Some p
      | None \<Rightarrow> map_of m k)"
proof (induction ps arbitrary: m)
  case Nil
  then show ?case by simp
next
  case (Cons p ps)
  have ih: "map_of (foldl dedup_step (dedup_step m p) ps) k =
     (case (if k = [] then None else find (\<lambda>q. ID q = k) (rev ps)) of
        Some p \<Rightarrow> Some p
      | None \<Rightarrow> map_of (dedup_step m p) k)"
    by (rule Cons)
  have st: "map_of (dedup_step m p) k' =
     (if ID p = [] then map_of m k' else if k' = ID p then Some p else map_of m k')" for k'
    by (simp add: dedup_step_def update_conv')
  show ?case
    by (auto simp: ih st find_app split: option.splits)
qed

lemma find_rev_last:
  "(find P (rev xs) = Some x) = (filter P xs \<noteq> [] \<and> last (filter P xs) = x)"
  by (induction xs rule: rev_induct) auto

lemma uniqueMap_entry:
  "((k, p) \<in> set (uniqueMap ps)) =
     (k \<noteq> [] \<and> filter (\<lambda>q. ID q = k) ps \<noteq> [] \<and> last (filter (\<lambda>q. ID q = k) ps) = p)"
proof -
  have d: "distinct (map fst (uniqueMap ps))"
    by (simp add: uniqueMap_foldl foldl_dedup_distinct)
  have "((k, p) \<in> set (uniqueMap ps)) = (map_of (uniqueMap ps) k = Some p)"
    using d by simp
  also have "\<dots> = (k \<noteq> [] \<and> find (\<lambda>q. ID q = k) (rev ps) = Some p)"
    by (simp add: uniqueMap_foldl foldl_dedup_map_of split: option.splits)
  finally show ?thesis by (simp add: find_rev_last)
qed

lemma last_filter_holds: "filter P xs \<noteq> [] \<Longrightarrow> P (last (filter P xs)) \<and> last (filter P xs) \<in> set xs"
proof -
  assume "filter P xs \<noteq> []"
  then have "last (filter P xs) \<in> set (filter P xs)" by (rule last_in_set)
  then show ?thesis by simp
qed

lemma uniqueMap_keys: "map (\<lambda>e. ID (snd e)) (uniqueMap ps) = map fst (uniqueMap ps)"
proof (rule map_cong[OF refl])
  fix e assume e: "e \<in> set (uniqueMap ps)"
  obtain k p where kp: "e = (k, p)" by (cases e)
  have "filter (\<lambda>q. ID q = k) ps \<noteq> []" "last (filter (\<lambda>q. ID q = k) ps) = p"
    using e kp uniqueMap_entry[of k p ps] by simp_all
  then have "ID p = k" using last_filter_holds[of "\<lambda>q. ID q = k" ps] by simp
  then show "ID (snd e) = fst e" using kp by simp
qed

lemma in_removeDuplicateProducts:
  "(p \<in># removeDuplicateProducts ps) =
     (p \<in> set ps \<and> ID p \<noteq> [] \<and> last (filter (\<lambda>q. ID q = ID p) ps) = p)"
proof -
  have "(p \<in># removeDuplicateProducts ps) = (\<exists>k. (k, p) \<in> set (uniqueMap ps))"
    by (force simp: removeDuplicateProducts_def)
  also have "\<dots> = (\<exists>k. k \<noteq> [] \<and> filter (\<lambda>q. ID q = k) ps \<noteq> []
                        \<and> last (filter (\<lambda>q. ID q = k) ps) = p)"
    by (simp add: uniqueMap_entry)
  also have "\<dots> = (p \<in> set ps \<and> ID p \<noteq> [] \<and> last (filter (\<lambda>q. ID q = ID p) ps) = p)"
  proof
    assume "\<exists>k. k \<noteq> [] \<and> filter (\<lambda>q. ID q = k) ps \<noteq> [] \<and> last (filter (\<lambda>q. ID q = k) ps) = p"
    then obtain k where k: "k \<noteq> []" "filter (\<lambda>q. ID q = k) ps \<noteq> []"
      "last (filter (\<lambda>q. ID q = k) ps) = p" by blast
    have "ID p = k \<and> p \<in> set ps" using last_filter_holds[OF k(2)] k(3) by simp
    then show "p \<in> set ps \<and> ID p \<noteq> [] \<and> last (filter (\<lambda>q. ID q = ID p) ps) = p"
      using k by simp
  next
    assume a: "p \<in> set ps \<and> ID p \<noteq> [] \<and> last (filter (\<lambda>q. ID q = ID p) ps) = p"
    then have "filter (\<lambda>q. ID q = ID p) ps \<noteq> []"
      by (auto simp: filter_empty_conv)
    then show "\<exists>k. k \<noteq> [] \<and> filter (\<lambda>q. ID q = k) ps \<noteq> [] \<and> last (filter (\<lambda>q. ID q = k) ps) = p"
      using a by blast
  qed
  finally show ?thesis .
qed

text \<open>
  Claim C4. The result has at most as many records as the input, no id occurs on more
  than one record of the result, and a record is in the result exactly if its id is
  not empty and it is the last record of the input with that id. The witness has two
  records with id 42 and different names: the later one alone remains.
\<close>

theorem removeDuplicateProducts_last_wins:
  "size (removeDuplicateProducts ps) \<le> length ps
   \<and> count (image_mset ID (removeDuplicateProducts ps)) k \<le> 1
   \<and> (p \<in># removeDuplicateProducts ps) =
       (p \<in> set ps \<and> ID p \<noteq> [] \<and> last (filter (\<lambda>q. ID q = ID p) ps) = p)"
proof (intro conjI)
  show "size (removeDuplicateProducts ps) \<le> length ps"
    using foldl_dedup_length[of "[]" ps]
    by (simp add: removeDuplicateProducts_def uniqueMap_foldl)
  have "distinct (map fst (uniqueMap ps))"
    by (simp add: uniqueMap_foldl foldl_dedup_distinct)
  moreover have "image_mset ID (removeDuplicateProducts ps)
      = mset (map (\<lambda>e. ID (snd e)) (uniqueMap ps))"
    by (simp add: removeDuplicateProducts_def multiset.map_comp comp_def)
  ultimately show "count (image_mset ID (removeDuplicateProducts ps)) k \<le> 1"
    by (simp add: uniqueMap_keys distinct_count_atmost_1)
  show "(p \<in># removeDuplicateProducts ps) =
       (p \<in> set ps \<and> ID p \<noteq> [] \<and> last (filter (\<lambda>q. ID q = ID p) ps) = p)"
    by (rule in_removeDuplicateProducts)
qed

lemma dedup_two_same_id:
  "removeDuplicateProducts
     [sample_product ''42'' [], (sample_product ''42'' [])\<lparr>Name := ''Mill''\<rparr>]
   = {#(sample_product ''42'' [])\<lparr>Name := ''Mill''\<rparr>#}"
  by (simp add: removeDuplicateProducts_def uniqueMap_def dedup_step_def sample_product_def)

theorem removeDuplicateProducts_last_wins_witness:
  "size (removeDuplicateProducts
           [sample_product ''42'' [], (sample_product ''42'' [])\<lparr>Name := ''Mill''\<rparr>]) \<le> 2
   \<and> count (image_mset ID (removeDuplicateProducts
           [sample_product ''42'' [], (sample_product ''42'' [])\<lparr>Name := ''Mill''\<rparr>])) ''42'' = 1
   \<and> removeDuplicateProducts
        [sample_product ''42'' [], (sample_product ''42'' [])\<lparr>Name := ''Mill''\<rparr>]
      = {#(sample_product ''42'' [])\<lparr>Name := ''Mill''\<rparr>#}"
  using removeDuplicateProducts_last_wins
    [of "[sample_product ''42'' [], (sample_product ''42'' [])\<lparr>Name := ''Mill''\<rparr>]"
        "''42''" "(sample_product ''42'' [])\<lparr>Name := ''Mill''\<rparr>"]
    dedup_two_same_id
  by (simp add: sample_product_def)

text \<open>
  Claim C6, amended. A record whose id is empty is never in the result of
  \<open>removeDuplicateProducts\<close>: such records are dropped, not kept beside the
  deduplicated ones.
\<close>

theorem removeDuplicateProducts_drops_empty_id:
  "ID p = [] \<Longrightarrow> \<not> p \<in># removeDuplicateProducts ps"
  by (simp add: in_removeDuplicateProducts)

theorem removeDuplicateProducts_drops_empty_id_witness:
  "\<not> sample_product [] ''Y'' \<in>#
      removeDuplicateProducts [sample_product [] ''Y'', sample_product ''42'' []]"
  using removeDuplicateProducts_drops_empty_id
    [of "sample_product [] ''Y''" "[sample_product [] ''Y'', sample_product ''42'' []]"]
  by (simp add: sample_product_def)

text \<open>
  The claim as stated fails on an input of two records, the first with an empty id:
  only the second is in the result.
\<close>

theorem empty_id_kept_counterexample:
  "ID (sample_product [] ''Y'') = []
   \<and> sample_product [] ''Y'' \<in> set [sample_product [] ''Y'', sample_product ''42'' []]
   \<and> removeDuplicateProducts [sample_product [] ''Y'', sample_product ''42'' []]
       = {#sample_product ''42'' []#}"
  by (simp add: removeDuplicateProducts_def uniqueMap_def dedup_step_def sample_product_def)

section \<open>Properties of getUTF8Reader\<close>

text \<open>
  What the test of \<open>getUTF8Reader\<close> looks at: the raw bytes of the body, before any
  decoding. The encoding is Windows-1251 when they contain the three bytes EF BF BD and
  the encoding that \<open>DetermineEncoding\<close> found otherwise.
\<close>

lemma getUTF8Reader_raw_bytes:
  "getUTF8Reader env (Inr b) =
     Inr (if strings_Contains b [CHR 0xEF, CHR 0xBF, CHR 0xBD] then Windows1251
          else DetermineEncoding env b, b)"
  by (simp add: getUTF8Reader_def replacement_bytes_def replacement_rune_def)

text \<open>
  Claim C9. The comment of the source announces Windows-1251 for an encoding that was
  not found or was found wrongly, and the claim asks for the override exactly when
  decoding with the encoding found yields the replacement character. On the four
  bytes EF BB BF FF, UTF-8 is found and decoding them as UTF-8 yields the replacement
  character, yet the reader keeps UTF-8, because the raw bytes do not contain
  EF BF BD. On the bytes EF BB BF 61 EF BF BD, well-formed UTF-8 that holds a
  replacement character, UTF-8 is found rightly and the reader decodes with
  Windows-1251 all the same.
\<close>

theorem getUTF8Reader_keeps_wrong_guess:
  "DetermineEncoding bom_env (utf8_bom @ [CHR 0xFF]) = UTF8
   \<and> strings_Contains
        (Decode bom_env (DetermineEncoding bom_env (utf8_bom @ [CHR 0xFF])) (utf8_bom @ [CHR 0xFF]))
        replacement_bytes
   \<and> getUTF8Reader bom_env (Inr (utf8_bom @ [CHR 0xFF])) = Inr (UTF8, utf8_bom @ [CHR 0xFF])
   \<and> DetermineEncoding bom_env (utf8_bom @ [CHR 0x61, CHR 0xEF, CHR 0xBF, CHR 0xBD]) = UTF8
   \<and> getUTF8Reader bom_env (Inr (utf8_bom @ [CHR 0x61, CHR 0xEF, CHR 0xBF, CHR 0xBD]))
       = Inr (Windows1251, utf8_bom @ [CHR 0x61, CHR 0xEF, CHR 0xBF, CHR 0xBD])"
  by (simp add: bom_env_def utf8_bom_def replacement_bytes_def replacement_rune_def
      getUTF8Reader_def)

end
